theory Spec2Isabelle
  imports Complex_Main
begin

section \<open>The Logwell HTTP transport (sdks/python/src/logwell/transport.py)\<close>

text \<open>
  The module sends a batch of log entries with one HTTP POST per attempt, classifies
  what comes back and retries with exponential backoff. Its effects are made explicit:
  the transport object and a trace of what it did to the outside world (requests posted,
  durations slept, clients constructed and closed) form one state record, threaded
  through every function; whatever the outside world decides (the outcome of each POST,
  each draw of \<^verbatim>\<open>random.random()\<close>, Python's \<^verbatim>\<open>str()\<close> of a JSON value that
  is not a string) is read from an environment record. Exceptions are values of a sum
  type. Python floats are idealised to real numbers: rounding is not modelled.
\<close>

subsection \<open>Errors\<close>

text \<open>
  Modelled from the spec: \<^verbatim>\<open>logwell/errors.py\<close> (the declarations of
  \<^verbatim>\<open>LogwellErrorCode\<close> and \<^verbatim>\<open>LogwellError\<close>) is not among the sources. The spec
  gives the error as message, kind, optional HTTP status and retryable flag, which is the
  order of the four constructor arguments in \<^verbatim>\<open>transport.py\<close>, and lists the five
  kinds the transport produces.
\<close>

datatype LogwellErrorCode =
  NETWORK_ERROR | UNAUTHORIZED | VALIDATION_ERROR | RATE_LIMITED | SERVER_ERROR

record LogwellError =
  message :: string
  kind :: LogwellErrorCode
  http_status :: "int option"
  retryable :: bool

text \<open>
  What a call can raise. \<open>Raised_LogwellError\<close> is the one class the retry loop catches.
  \<open>JSONDecodeError\<close> is what \<^verbatim>\<open>response.json()\<close> raises on a body that is not JSON,
  \<open>OverflowError\<close> what Python raises when an \<^verbatim>\<open>int\<close> too large for a float meets
  a float in arithmetic, \<open>Other_exception\<close> anything else \<^verbatim>\<open>client.post\<close> lets out.
\<close>

datatype exn =
  Raised_LogwellError LogwellError
| JSONDecodeError
| OverflowError
| Other_exception string

subsection \<open>JSON values, requests and responses\<close>

text \<open>
  A parsed JSON document as Python holds it. An object is the parsed \<^verbatim>\<open>dict\<close>, kept
  as an association list read with \<open>map_of\<close>; a float is held as the real number it
  denotes.
\<close>

datatype json =
  JNull
| JBool bool
| JInt int
| JFloat real
| JString string
| JArray "json list"
| JObject "(string \<times> json) list"

text \<open>Python's truth value of a parsed JSON value, which \<^verbatim>\<open>or\<close> tests.\<close>

fun truthy :: "json \<Rightarrow> bool" where
  "truthy JNull = False"
| "truthy (JBool b) = b"
| "truthy (JInt i) = (i \<noteq> 0)"
| "truthy (JFloat x) = (x \<noteq> 0)"
| "truthy (JString s) = (s \<noteq> [])"
| "truthy (JArray xs) = (xs \<noteq> [])"
| "truthy (JObject kvs) = (kvs \<noteq> [])"

definition py_or :: "json \<Rightarrow> json \<Rightarrow> json" where
  "py_or a b = (if truthy a then a else b)"

text \<open>\<^verbatim>\<open>body.get(key)\<close>: the value, or \<^verbatim>\<open>None\<close> when the key is absent.\<close>

definition dict_get :: "(string \<times> json) list \<Rightarrow> string \<Rightarrow> json" where
  "dict_get d k = (case map_of d k of None \<Rightarrow> JNull | Some v \<Rightarrow> v)"

record TransportConfig =
  endpoint :: string
  api_key :: string
  max_retries :: int
  timeout :: real

record 'e request =
  req_url :: string
  req_headers :: "(string \<times> string) list"
  req_json :: "'e list"

text \<open>
  A response as the transport reads it: its status code and what \<^verbatim>\<open>response.json()\<close>
  gives, \<open>None\<close> when that call raises.
\<close>

record response =
  status_code :: int
  json_result :: "json option"

text \<open>\<^verbatim>\<open>httpx.Response.is_success\<close>: the status is 2xx.\<close>

definition is_success :: "response \<Rightarrow> bool" where
  "is_success r = (200 \<le> status_code r \<and> status_code r \<le> 299)"

text \<open>
  What one \<^verbatim>\<open>await client.post(...)\<close> does: it returns a response or raises.
  \<^verbatim>\<open>httpx.TimeoutException\<close> is a subclass of \<^verbatim>\<open>httpx.RequestError\<close>, and the
  source tests for it first; \<open>RequestError\<close> here is any other request error. The
  string is \<^verbatim>\<open>str(e)\<close>.
\<close>

datatype post_result =
  Response response
| TimeoutException string
| RequestError string
| Post_raises string

datatype AsyncClient = AsyncClient (client_timeout: real)

record 'e env =
  net :: "nat \<Rightarrow> 'e request \<Rightarrow> post_result"
  rnd :: "nat \<Rightarrow> real"
  py_str :: "json \<Rightarrow> string"

record 'e state =
  config :: TransportConfig
  ingest_url :: string
  client :: "AsyncClient option"
  opened :: nat
  aclosed :: nat
  posted :: "'e request list"
  slept :: "real list"
  draws :: nat

subsection \<open>Formatting\<close>

text \<open>\<^verbatim>\<open>str\<close> of a Python \<^verbatim>\<open>int\<close>, as an f-string inserts it.\<close>

fun nat_digits :: "nat \<Rightarrow> string" where
  "nat_digits n =
     (if n < 10 then [''0123456789'' ! n]
      else nat_digits (n div 10) @ [''0123456789'' ! (n mod 10)])"

declare nat_digits.simps [simp del]

definition str_int :: "int \<Rightarrow> string" where
  "str_int i = (if i < 0 then ''-'' @ nat_digits (nat (- i)) else nat_digits (nat i))"

text \<open>
  What an f-string inserts for \<^verbatim>\<open>{message}\<close>: a \<^verbatim>\<open>str\<close> as it is, any other value
  through \<^verbatim>\<open>str()\<close>.
\<close>

definition format_value :: "'e env \<Rightarrow> json \<Rightarrow> string" where
  "format_value E v = (case v of JString s \<Rightarrow> s | _ \<Rightarrow> py_str E v)"

subsection \<open>TransportConfig and the backoff delay\<close>

text \<open>\<^verbatim>\<open>HttpTransport.__init__\<close> with a \<^verbatim>\<open>TransportConfig\<close>; the trace starts empty.\<close>

definition init :: "TransportConfig \<Rightarrow> 'e state" where
  "init cfg =
     \<lparr>config = cfg, ingest_url = endpoint cfg @ ''/v1/ingest'', client = None,
      opened = 0, aclosed = 0, posted = [], slept = [], draws = 0\<rparr>"

text \<open>
  \<^verbatim>\<open>_delay\<close>. \<^verbatim>\<open>2**attempt\<close> is an exact Python \<^verbatim>\<open>int\<close>; multiplying it with the
  float \<^verbatim>\<open>base_delay\<close> converts it to a float first, and that conversion raises
  \<^verbatim>\<open>OverflowError\<close> ("int too large to convert to float") from \<^verbatim>\<open>2**1024\<close> on,
  the first power of two beyond the double range. The exception leaves \<^verbatim>\<open>_delay\<close>
  before the random draw and the sleep. \<open>send\<close> passes attempts from \<^verbatim>\<open>range\<close>,
  which are never negative.
\<close>

definition delay_secs :: "nat \<Rightarrow> real \<Rightarrow> real" where
  "delay_secs attempt base_delay = min (base_delay * 2 ^ attempt) 10"

definition jitter :: "real \<Rightarrow> nat \<Rightarrow> real \<Rightarrow> real" where
  "jitter u attempt base_delay = u * delay_secs attempt base_delay * (3 / 10)"

definition delay :: "'e env \<Rightarrow> nat \<Rightarrow> real \<Rightarrow> 'e state \<Rightarrow> (exn + unit) \<times> 'e state" where
  "delay E attempt base_delay s =
     (if 1024 \<le> attempt then (Inl OverflowError, s)
      else
        (Inr (),
         s\<lparr>slept := slept s @
              [delay_secs attempt base_delay + jitter (rnd E (draws s)) attempt base_delay],
           draws := Suc (draws s)\<rparr>))"

subsection \<open>HttpTransport\<close>

definition get_client :: "'e state \<Rightarrow> AsyncClient \<times> 'e state" where
  "get_client s =
     (case client s of
        None \<Rightarrow>
          (AsyncClient (timeout (config s)),
           s\<lparr>client := Some (AsyncClient (timeout (config s))), opened := Suc (opened s)\<rparr>)
      | Some c \<Rightarrow> (c, s))"

definition close :: "'e state \<Rightarrow> 'e state" where
  "close s =
     (case client s of
        None \<Rightarrow> s
      | Some c \<Rightarrow> s\<lparr>client := None, aclosed := Suc (aclosed s)\<rparr>)"

definition try_parse_error :: "response \<Rightarrow> json" where
  "try_parse_error r =
     (case json_result r of
        Some (JObject body) \<Rightarrow>
          py_or (dict_get body ''message'')
            (py_or (dict_get body ''error'') (JString ''Unknown error''))
      | _ \<Rightarrow> JString (''HTTP '' @ str_int (status_code r)))"

definition create_error :: "int \<Rightarrow> string \<Rightarrow> LogwellError" where
  "create_error status msg =
     (if status = 401 then
        \<lparr>message = ''Unauthorized: '' @ msg, kind = UNAUTHORIZED,
         http_status = Some status, retryable = False\<rparr>
      else if status = 400 then
        \<lparr>message = ''Validation error: '' @ msg, kind = VALIDATION_ERROR,
         http_status = Some status, retryable = False\<rparr>
      else if status = 429 then
        \<lparr>message = ''Rate limited: '' @ msg, kind = RATE_LIMITED,
         http_status = Some status, retryable = True\<rparr>
      else if 500 \<le> status then
        \<lparr>message = ''Server error: '' @ msg, kind = SERVER_ERROR,
         http_status = Some status, retryable = True\<rparr>
      else
        \<lparr>message = ''HTTP error '' @ str_int status @ '': '' @ msg, kind = SERVER_ERROR,
         http_status = Some status, retryable = False\<rparr>)"

text \<open>
  The request that \<^verbatim>\<open>_do_request\<close> hands to \<^verbatim>\<open>client.post\<close>: the URL, the two
  headers and the batch as the \<^verbatim>\<open>json=\<close> argument, which httpx serialises.
\<close>

definition build_request :: "'e state \<Rightarrow> 'e list \<Rightarrow> 'e request" where
  "build_request s logs =
     \<lparr>req_url = ingest_url s,
      req_headers =
        [(''Authorization'', ''Bearer '' @ api_key (config s)),
         (''Content-Type'', ''application/json'')],
      req_json = logs\<rparr>"

text \<open>The part of \<^verbatim>\<open>_do_request\<close> after the POST: what it raises or returns.\<close>

definition handle_result :: "'e env \<Rightarrow> post_result \<Rightarrow> exn + json" where
  "handle_result E res =
     (case res of
        TimeoutException e \<Rightarrow>
          Inl (Raised_LogwellError
            \<lparr>message = ''Request timeout: '' @ e, kind = NETWORK_ERROR,
             http_status = None, retryable = True\<rparr>)
      | RequestError e \<Rightarrow>
          Inl (Raised_LogwellError
            \<lparr>message = ''Network error: '' @ e, kind = NETWORK_ERROR,
             http_status = None, retryable = True\<rparr>)
      | Post_raises e \<Rightarrow> Inl (Other_exception e)
      | Response r \<Rightarrow>
          (if \<not> is_success r then
             Inl (Raised_LogwellError
               (create_error (status_code r) (format_value E (try_parse_error r))))
           else
             (case json_result r of
                None \<Rightarrow> Inl JSONDecodeError
              | Some data \<Rightarrow> Inr data)))"

text \<open>
  \<^verbatim>\<open>_do_request\<close>. The outcome of the POST is the environment's answer to the request,
  indexed by how many requests went out before it.
\<close>

definition do_request :: "'e env \<Rightarrow> 'e list \<Rightarrow> 'e state \<Rightarrow> (exn + json) \<times> 'e state" where
  "do_request E logs s =
     (let (c, s1) = get_client s;
          req = build_request s1 logs;
          res = net E (length (posted s1)) req
      in (handle_result E res, s1\<lparr>posted := posted s1 @ [req]\<rparr>))"

text \<open>
  The loop of \<^verbatim>\<open>send\<close> over the attempts still to make, with \<^verbatim>\<open>last_error\<close>
  as an argument. An exception that is not a \<^verbatim>\<open>LogwellError\<close> is not caught, whether
  it comes from the request or from \<^verbatim>\<open>_delay\<close>.
\<close>

fun send_loop ::
  "'e env \<Rightarrow> 'e list \<Rightarrow> nat list \<Rightarrow> LogwellError \<Rightarrow> 'e state \<Rightarrow> (exn + json) \<times> 'e state"
where
  "send_loop E logs [] last_error s = (Inl (Raised_LogwellError last_error), s)"
| "send_loop E logs (attempt # rest) last_error s =
     (case do_request E logs s of
        (Inr data, s1) \<Rightarrow> (Inr data, s1)
      | (Inl (Raised_LogwellError error), s1) \<Rightarrow>
          (if \<not> retryable error then (Inl (Raised_LogwellError error), s1)
           else if int attempt < max_retries (config s1) then
             (case delay E attempt (1 / 10) s1 of
                (Inl ex, s2) \<Rightarrow> (Inl ex, s2)
              | (Inr u, s2) \<Rightarrow> send_loop E logs rest error s2)
           else send_loop E logs rest error s1)
      | (Inl ex, s1) \<Rightarrow> (Inl ex, s1))"

definition send :: "'e env \<Rightarrow> 'e list \<Rightarrow> 'e state \<Rightarrow> (exn + json) \<times> 'e state" where
  "send E logs s =
     send_loop E logs [0 ..< nat (max_retries (config s) + 1)]
       \<lparr>message = ''Max retries exceeded'', kind = NETWORK_ERROR,
        http_status = None, retryable = True\<rparr> s"

text \<open>
  What the executor makes of the \<open>i\<close>-th request of a transport in state \<open>s\<close>: the
  value of \<^verbatim>\<open>_do_request\<close> when \<open>i\<close> requests went out before it.
\<close>

definition executor_result :: "'e env \<Rightarrow> 'e list \<Rightarrow> 'e state \<Rightarrow> nat \<Rightarrow> exn + json" where
  "executor_result E logs s i = handle_result E (net E i (build_request s logs))"

subsection \<open>The message of an error response, as the specification words it\<close>

text \<open>
  The specification's reading of \<^verbatim>\<open>_try_parse_error\<close>: the \<^verbatim>\<open>message\<close> field if
  present, else the \<^verbatim>\<open>error\<close> field if present, else the generic
  \<^verbatim>\<open>HTTP {status}\<close>, which is also the answer for a body that cannot be parsed.
\<close>

definition spec_message :: "response \<Rightarrow> json" where
  "spec_message r =
     (case json_result r of
        Some (JObject body) \<Rightarrow>
          (case map_of body ''message'' of
             Some v \<Rightarrow> v
           | None \<Rightarrow>
               (case map_of body ''error'' of
                  Some v \<Rightarrow> v
                | None \<Rightarrow> JString (''HTTP '' @ str_int (status_code r))))
      | _ \<Rightarrow> JString (''HTTP '' @ str_int (status_code r)))"

text \<open>A field that is present and whose value Python counts as true.\<close>

definition truthy_field :: "(string \<times> json) list \<Rightarrow> string \<Rightarrow> json option" where
  "truthy_field body k =
     (case map_of body k of
        None \<Rightarrow> None
      | Some v \<Rightarrow> if truthy v then Some v else None)"

subsection \<open>Sample transports\<close>

text \<open>
  A configuration and an environment to run the transport on: every POST number \<open>n\<close>
  is answered by \<open>f n\<close>, every random draw is one half.
\<close>

definition sample_config :: TransportConfig where
  "sample_config =
     \<lparr>endpoint = ''https://logs.example'', api_key = ''secret'', max_retries = 3, timeout = 30\<rparr>"

definition answering :: "(nat \<Rightarrow> post_result) \<Rightarrow> 'e env" where
  "answering f = \<lparr>net = (\<lambda>n q. f n), rnd = (\<lambda>n. 1 / 2), py_str = (\<lambda>v. ''?'')\<rparr>"

subsection \<open>A transport in use\<close>

text \<open>
  The calls a program makes on a transport after constructing it, and the state they
  leave: \<open>run E calls (init cfg)\<close> is any transport built by
  \<^verbatim>\<open>HttpTransport(cfg)\<close> and then used.
\<close>

datatype 'e call = Send "'e list" | Close

fun run :: "'e env \<Rightarrow> 'e call list \<Rightarrow> 'e state \<Rightarrow> 'e state" where
  "run E [] s = s"
| "run E (Send logs # calls) s = run E calls (snd (send E logs s))"
| "run E (Close # calls) s = run E calls (close s)"

section \<open>Properties\<close>

subsection \<open>What each step changes\<close>

lemma get_client_keeps:
  "config (snd (get_client s)) = config s"
  "ingest_url (snd (get_client s)) = ingest_url s"
  "posted (snd (get_client s)) = posted s"
  "slept (snd (get_client s)) = slept s"
  "draws (snd (get_client s)) = draws s"
  "aclosed (snd (get_client s)) = aclosed s"
  by (simp_all add: get_client_def split: option.split)

lemma build_request_cong:
  "config t = config s \<Longrightarrow> ingest_url t = ingest_url s \<Longrightarrow>
   build_request t logs = build_request s logs"
  by (simp add: build_request_def)

lemma do_request_eq:
  "do_request E logs s =
     (executor_result E logs s (length (posted s)),
      (snd (get_client s))\<lparr>posted := posted s @ [build_request s logs]\<rparr>)"
  by (simp add: do_request_def executor_result_def Let_def split_beta get_client_keeps
      build_request_cong [of "snd (get_client s)" s])

lemma do_request_keeps:
  "config (snd (do_request E logs s)) = config s"
  "ingest_url (snd (do_request E logs s)) = ingest_url s"
  "posted (snd (do_request E logs s)) = posted s @ [build_request s logs]"
  "slept (snd (do_request E logs s)) = slept s"
  "draws (snd (do_request E logs s)) = draws s"
  "aclosed (snd (do_request E logs s)) = aclosed s"
  by (simp_all add: do_request_eq get_client_keeps)

lemma executor_result_cong:
  "config t = config s \<Longrightarrow> ingest_url t = ingest_url s \<Longrightarrow>
   executor_result E logs t i = executor_result E logs s i"
  by (simp add: executor_result_def build_request_def)

lemma send_loop_retryable_step:
  assumes "executor_result E logs s (length (posted s)) = Inl (Raised_LogwellError e)"
    and "retryable e"
  shows "send_loop E logs (a # rest) lst s =
     (if int a < max_retries (config s) then
        (case delay E a (1 / 10) (snd (do_request E logs s)) of
           (Inl ex, s2) \<Rightarrow> (Inl ex, s2)
         | (Inr u, s2) \<Rightarrow> send_loop E logs rest e s2)
      else send_loop E logs rest e (snd (do_request E logs s)))"
  using assms by (simp add: do_request_eq get_client_keeps)

lemma send_loop_retry_one:
  assumes "executor_result E logs s (length (posted s)) = Inl (Raised_LogwellError e)"
    and "retryable e" and "int a < max_retries (config s)" and "a < 1024"
  shows "send_loop E logs (a # rest) lst s =
     send_loop E logs rest e (snd (delay E a (1 / 10) (snd (do_request E logs s))))"
  unfolding send_loop_retryable_step [OF assms(1,2)] using assms(3,4)
  by (simp add: delay_def)


lemma delay_keeps:
  "config (snd (delay E a b s)) = config s"
  "ingest_url (snd (delay E a b s)) = ingest_url s"
  "posted (snd (delay E a b s)) = posted s"
  "client (snd (delay E a b s)) = client s"
  "opened (snd (delay E a b s)) = opened s"
  "aclosed (snd (delay E a b s)) = aclosed s"
  by (simp_all add: delay_def)

lemma delay_slept_length:
  "a < 1024 \<Longrightarrow> length (slept (snd (delay E a b s))) = Suc (length (slept s))"
  by (simp add: delay_def)

lemma send_loop_retry_prefix:
  assumes "\<forall>j<n. \<exists>e. executor_result E logs s (length (posted s) + j) =
              Inl (Raised_LogwellError e) \<and> retryable e"
    and "int (a + n) \<le> max_retries (config s)"
    and "a + n \<le> 1024"
  shows "\<exists>e s'. send_loop E logs ([a ..< a + n] @ rest) lst s = send_loop E logs rest e s'
      \<and> config s' = config s \<and> ingest_url s' = ingest_url s
      \<and> posted s' = posted s @ replicate n (build_request s logs)
      \<and> length (slept s') = length (slept s) + n
      \<and> (if n = 0 then e = lst \<and> s' = s
          else executor_result E logs s (length (posted s) + n - 1) =
                 Inl (Raised_LogwellError e))"
  using assms
proof (induction n arbitrary: a s lst)
  case 0
  show ?case
    by (rule exI [of _ lst], rule exI [of _ s]) simp
next
  case (Suc n)
  have "\<exists>e. executor_result E logs s (length (posted s) + 0) =
      Inl (Raised_LogwellError e) \<and> retryable e"
    using Suc.prems(1) by blast
  then obtain e0 where
    e0: "executor_result E logs s (length (posted s)) = Inl (Raised_LogwellError e0)"
    "retryable e0"
    by auto
  define s2 where "s2 = snd (delay E a (1 / 10) (snd (do_request E logs s)))"
  have a: "int a < max_retries (config s)" "a < 1024"
    using Suc.prems(2,3) by simp_all
  have s2: "config s2 = config s" "ingest_url s2 = ingest_url s"
    "posted s2 = posted s @ [build_request s logs]"
    by (simp_all add: s2_def delay_keeps do_request_keeps)
  have s2_slept: "length (slept s2) = Suc (length (slept s))"
    using a(2) by (simp add: s2_def delay_slept_length do_request_keeps)
  have upt: "[a ..< a + Suc n] = a # [Suc a ..< Suc a + n]"
    by (simp add: upt_rec)
  have step: "send_loop E logs ([a ..< a + Suc n] @ rest) lst s =
      send_loop E logs ([Suc a ..< Suc a + n] @ rest) e0 s2"
    unfolding upt s2_def append_Cons
    by (rule send_loop_retry_one [OF e0 a])
  have res: "executor_result E logs s2 i = executor_result E logs s i" for i
    by (rule executor_result_cong) (simp_all add: s2)
  have br: "build_request s2 logs = build_request s logs"
    by (rule build_request_cong) (simp_all add: s2)
  have p1: "\<forall>j<n. \<exists>e. executor_result E logs s2 (length (posted s2) + j) =
              Inl (Raised_LogwellError e) \<and> retryable e"
  proof (intro allI impI)
    fix j assume "j < n"
    then have "Suc j < Suc n" by simp
    with Suc.prems(1) have "\<exists>e. executor_result E logs s (length (posted s) + Suc j) =
              Inl (Raised_LogwellError e) \<and> retryable e"
      by blast
    moreover have "length (posted s2) + j = length (posted s) + Suc j"
      by (simp add: s2)
    ultimately show "\<exists>e. executor_result E logs s2 (length (posted s2) + j) =
              Inl (Raised_LogwellError e) \<and> retryable e"
      by (simp only: res)
  qed
  have p2: "int (Suc a + n) \<le> max_retries (config s2)" "Suc a + n \<le> 1024"
    using Suc.prems(2,3) by (simp_all add: s2)
  from Suc.IH [OF p1 p2, of e0] obtain e s' where
    ih: "send_loop E logs ([Suc a ..< Suc a + n] @ rest) e0 s2 = send_loop E logs rest e s'"
      "config s' = config s2" "ingest_url s' = ingest_url s2"
      "posted s' = posted s2 @ replicate n (build_request s2 logs)"
      "length (slept s') = length (slept s2) + n"
      "if n = 0 then e = e0 \<and> s' = s2
       else executor_result E logs s2 (length (posted s2) + n - 1) = Inl (Raised_LogwellError e)"
    by blast
  have final: "executor_result E logs s (length (posted s) + Suc n - 1) =
      Inl (Raised_LogwellError e)"
  proof (cases "n = 0")
    case True
    with ih(6) e0 show ?thesis by simp
  next
    case False
    with ih(6) show ?thesis by (simp add: res s2)
  qed
  have r1: "send_loop E logs ([a ..< a + Suc n] @ rest) lst s = send_loop E logs rest e s'"
    using step ih(1) by (rule trans)
  have r2: "config s' = config s" "ingest_url s' = ingest_url s"
    using ih(2,3) by (simp_all add: s2)
  have r3: "posted s' = posted s @ replicate (Suc n) (build_request s logs)"
    using ih(4) by (simp add: s2 br replicate_app_Cons_same)
  have r4: "length (slept s') = length (slept s) + Suc n"
    using ih(5) by (simp add: s2_slept)
  have r5: "if Suc n = 0 then e = lst \<and> s' = s
      else executor_result E logs s (length (posted s) + Suc n - 1) =
             Inl (Raised_LogwellError e)"
    using final by (simp only: nat.distinct if_False)
  show ?case
    by (rule exI [of _ e], rule exI [of _ s']) (intro conjI r1 r2 r3 r4 r5)
qed


lemma do_request_fst:
  "fst (do_request E logs s) = handle_result E (net E (length (posted s)) (build_request s logs))"
  by (simp add: do_request_eq executor_result_def)

subsection \<open>Classification of responses\<close>

text \<open>
  Claim C1. For every response whose status \<open>s\<close> is not 2xx, the request executor raises
  a classified error that carries \<open>http_status = s\<close> and the kind and retryable flag of
  the table: 401 gives UNAUTHORIZED, not retryable; 400 gives VALIDATION_ERROR, not
  retryable; 429 gives RATE_LIMITED, retryable; 500 and above give SERVER_ERROR,
  retryable; every other status gives SERVER_ERROR, not retryable.
\<close>

theorem executor_classifies_status:
  assumes "net E (length (posted s)) (build_request s logs) = Response r"
    and "\<not> is_success r"
  shows "\<exists>e. fst (do_request E logs s) = Inl (Raised_LogwellError e) \<and>
     http_status e = Some (status_code r) \<and>
     (kind e, retryable e) =
       (if status_code r = 401 then (UNAUTHORIZED, False)
        else if status_code r = 400 then (VALIDATION_ERROR, False)
        else if status_code r = 429 then (RATE_LIMITED, True)
        else if 500 \<le> status_code r then (SERVER_ERROR, True)
        else (SERVER_ERROR, False))"
  using assms by (simp add: do_request_fst handle_result_def create_error_def)

theorem executor_classifies_status_witness:
  "\<exists>e. fst (do_request
        \<lparr>net = (\<lambda>n q. Response \<lparr>status_code = 403, json_result = None\<rparr>),
         rnd = (\<lambda>n. 0), py_str = (\<lambda>v. [])\<rparr>
        [1 :: nat]
        (init \<lparr>endpoint = ''https://logs.example'', api_key = ''k'', max_retries = 3,
               timeout = 30\<rparr>)) = Inl (Raised_LogwellError e) \<and>
     http_status e = Some 403 \<and> (kind e, retryable e) = (SERVER_ERROR, False)"
  using executor_classifies_status
    [of "\<lparr>net = (\<lambda>n q. Response \<lparr>status_code = 403, json_result = None\<rparr>),
          rnd = (\<lambda>n. 0), py_str = (\<lambda>v. [])\<rparr>"
        "init \<lparr>endpoint = ''https://logs.example'', api_key = ''k'', max_retries = 3,
               timeout = 30\<rparr>"
        "[1 :: nat]" "\<lparr>status_code = 403, json_result = None\<rparr>"]
  by (simp add: is_success_def)

subsection \<open>Transport failures\<close>



subsection \<open>The retry loop: errors that end it at once\<close>

lemma send_first_attempt:
  "0 \<le> max_retries (config s) \<Longrightarrow>
   send E logs s =
     send_loop E logs (0 # [1 ..< nat (max_retries (config s) + 1)])
       \<lparr>message = ''Max retries exceeded'', kind = NETWORK_ERROR,
        http_status = None, retryable = True\<rparr> s"
  by (simp add: send_def upt_conv_Cons del: upt_Suc)

lemma send_loop_uncaught:
  assumes "fst (do_request E logs s) = Inl ex" and "\<forall>e. ex \<noteq> Raised_LogwellError e"
  shows "send_loop E logs (attempt # rest) lst s = (Inl ex, snd (do_request E logs s))"
  using assms by (cases "do_request E logs s"; cases ex) simp_all

lemma send_loop_non_retryable:
  assumes "fst (do_request E logs s) = Inl (Raised_LogwellError e)" and "\<not> retryable e"
  shows "send_loop E logs (attempt # rest) lst s =
     (Inl (Raised_LogwellError e), snd (do_request E logs s))"
  using assms by (cases "do_request E logs s") simp

text \<open>
  Claim C3. When the executor raises an error that is not retryable, on whatever attempt
  of the loop, \<open>send\<close> raises that very error there: the state it leaves is the one
  the request left, with one more request posted and nothing slept. In particular this
  is so on attempt 0 of \<open>send\<close>.
\<close>

theorem non_retryable_error_raised_immediately:
  assumes "fst (do_request E logs s) = Inl (Raised_LogwellError e)" and "\<not> retryable e"
  shows "send_loop E logs (attempt # rest) lst s =
       (Inl (Raised_LogwellError e), snd (do_request E logs s)) \<and>
     posted (snd (do_request E logs s)) = posted s @ [build_request s logs] \<and>
     slept (snd (do_request E logs s)) = slept s \<and>
     (0 \<le> max_retries (config s) \<longrightarrow>
        send E logs s = (Inl (Raised_LogwellError e), snd (do_request E logs s)))"
  using send_loop_non_retryable [OF assms]
  by (simp add: send_first_attempt do_request_keeps del: send_loop.simps)

lemma sample_401:
  "fst (do_request (answering (\<lambda>n. Response \<lparr>status_code = 401, json_result = None\<rparr>))
        logs (init sample_config)) =
   Inl (Raised_LogwellError
     \<lparr>message = ''Unauthorized: HTTP 401'', kind = UNAUTHORIZED, http_status = Some 401,
      retryable = False\<rparr>)"
  by (simp add: do_request_fst answering_def handle_result_def is_success_def create_error_def
      try_parse_error_def format_value_def str_int_def nat_digits.simps)

theorem non_retryable_error_raised_immediately_witness:
  "send (answering (\<lambda>n. Response \<lparr>status_code = 401, json_result = None\<rparr>)) [''boot'']
       (init sample_config) =
     (Inl (Raised_LogwellError
        \<lparr>message = ''Unauthorized: HTTP 401'', kind = UNAUTHORIZED, http_status = Some 401,
         retryable = False\<rparr>),
      snd (do_request (answering (\<lambda>n. Response \<lparr>status_code = 401, json_result = None\<rparr>))
        [''boot''] (init sample_config))) \<and>
   length (posted (snd (do_request
      (answering (\<lambda>n. Response \<lparr>status_code = 401, json_result = None\<rparr>))
      [''boot''] (init sample_config)))) = 1 \<and>
   slept (snd (do_request (answering (\<lambda>n. Response \<lparr>status_code = 401, json_result = None\<rparr>))
      [''boot''] (init sample_config))) = []"
  using non_retryable_error_raised_immediately [OF sample_401, of "[''boot'']" 0 "[]"
      "\<lparr>message = [], kind = NETWORK_ERROR, http_status = None, retryable = True\<rparr>"]
  by (simp add: init_def sample_config_def del: send_loop.simps)

text \<open>
  Claim C9. A 2xx response whose body is not JSON makes \<^verbatim>\<open>response.json()\<close> raise an
  exception that is not a \<^verbatim>\<open>LogwellError\<close>. The loop does not catch it: it leaves
  \<open>send\<close> on that same attempt, with one request posted, no sleep and no retry.
\<close>

theorem malformed_success_body_escapes:
  assumes "net E (length (posted s)) (build_request s logs) = Response r"
    and "is_success r" and "json_result r = None"
  shows "fst (do_request E logs s) = Inl JSONDecodeError \<and>
     send_loop E logs (attempt # rest) lst s = (Inl JSONDecodeError, snd (do_request E logs s)) \<and>
     posted (snd (do_request E logs s)) = posted s @ [build_request s logs] \<and>
     slept (snd (do_request E logs s)) = slept s \<and>
     (0 \<le> max_retries (config s) \<longrightarrow>
        send E logs s = (Inl JSONDecodeError, snd (do_request E logs s)))"
proof -
  have r: "fst (do_request E logs s) = Inl JSONDecodeError"
    using assms by (simp add: do_request_fst handle_result_def)
  have "send_loop E logs (a # xs) l s = (Inl JSONDecodeError, snd (do_request E logs s))"
    for a xs l
    by (rule send_loop_uncaught [OF r]) simp
  then show ?thesis
    using r by (simp add: send_first_attempt do_request_keeps del: send_loop.simps)
qed


lemma sample_200:
  "net (answering (\<lambda>n. Response \<lparr>status_code = 200, json_result = None\<rparr>))
     (length (posted (init sample_config :: string state))) (build_request (init sample_config) logs) =
   Response \<lparr>status_code = 200, json_result = None\<rparr>"
  by (simp add: answering_def)

theorem malformed_success_body_escapes_witness:
  "send (answering (\<lambda>n. Response \<lparr>status_code = 200, json_result = None\<rparr>)) [''boot'']
       (init sample_config) =
     (Inl JSONDecodeError,
      snd (do_request (answering (\<lambda>n. Response \<lparr>status_code = 200, json_result = None\<rparr>))
        [''boot''] (init sample_config))) \<and>
   length (posted (snd (do_request
      (answering (\<lambda>n. Response \<lparr>status_code = 200, json_result = None\<rparr>))
      [''boot''] (init sample_config)))) = 1 \<and>
   slept (snd (do_request (answering (\<lambda>n. Response \<lparr>status_code = 200, json_result = None\<rparr>))
      [''boot''] (init sample_config))) = []"
  using malformed_success_body_escapes [OF sample_200, of "[''boot'']" 0 "[]"
      "\<lparr>message = [], kind = NETWORK_ERROR, http_status = None, retryable = True\<rparr>"]
  by (simp add: init_def sample_config_def is_success_def del: send_loop.simps)


subsection \<open>The message of an error response\<close>

text \<open>
  Claim C6, as the specification words it, fails on a 404 response whose body is the empty
  JSON object: no field is present, the specification asks for \<^verbatim>\<open>HTTP 404\<close>, and
  \<^verbatim>\<open>_try_parse_error\<close> returns \<^verbatim>\<open>Unknown error\<close>.
\<close>

theorem spec_message_counterexample:
  "try_parse_error \<lparr>status_code = 404, json_result = Some (JObject [])\<rparr> =
     JString ''Unknown error'' \<and>
   spec_message \<lparr>status_code = 404, json_result = Some (JObject [])\<rparr> = JString ''HTTP 404'' \<and>
   try_parse_error \<lparr>status_code = 404, json_result = Some (JObject [])\<rparr> \<noteq>
     spec_message \<lparr>status_code = 404, json_result = Some (JObject [])\<rparr>"
  by (simp add: try_parse_error_def spec_message_def dict_get_def py_or_def str_int_def
      nat_digits.simps)

lemma py_or_dict_get:
  "py_or (dict_get body k) d = (case truthy_field body k of Some v \<Rightarrow> v | None \<Rightarrow> d)"
  by (simp add: py_or_def dict_get_def truthy_field_def split: option.split)

text \<open>
  Claim C6, amended. The message taken from the body of an error response is the
  \<^verbatim>\<open>message\<close> field if it is present with a value Python counts as true, else the
  \<^verbatim>\<open>error\<close> field if it is present with such a value, else the fixed string
  \<^verbatim>\<open>Unknown error\<close>; a body that is not JSON, or is JSON but not an object, gives
  \<^verbatim>\<open>HTTP {status}\<close>. A 401 response with an unparsable body is raised as
  UNAUTHORIZED, not retryable, with the message \<^verbatim>\<open>Unauthorized: HTTP 401\<close>.
\<close>

theorem error_message_extraction:
  "try_parse_error r =
     (case json_result r of
        Some (JObject body) \<Rightarrow>
          (case truthy_field body ''message'' of
             Some v \<Rightarrow> v
           | None \<Rightarrow>
               (case truthy_field body ''error'' of
                  Some v \<Rightarrow> v
                | None \<Rightarrow> JString ''Unknown error''))
      | _ \<Rightarrow> JString (''HTTP '' @ str_int (status_code r))) \<and>
   (status_code r = 401 \<and> json_result r = None \<longrightarrow>
      handle_result E (Response r) =
        Inl (Raised_LogwellError
          \<lparr>message = ''Unauthorized: HTTP 401'', kind = UNAUTHORIZED, http_status = Some 401,
           retryable = False\<rparr>))"
  by (simp add: try_parse_error_def py_or_dict_get handle_result_def is_success_def
      create_error_def format_value_def str_int_def nat_digits.simps
      split: option.split json.split)

theorem error_message_extraction_witness:
  "try_parse_error
     \<lparr>status_code = 429,
      json_result = Some (JObject [(''message'', JString []), (''error'', JString ''slow down'')])\<rparr> =
     JString ''slow down'' \<and>
   try_parse_error \<lparr>status_code = 401, json_result = None\<rparr> = JString ''HTTP 401'' \<and>
   handle_result (answering (\<lambda>n. RequestError []) :: string env)
       (Response \<lparr>status_code = 401, json_result = None\<rparr>) =
     Inl (Raised_LogwellError
       \<lparr>message = ''Unauthorized: HTTP 401'', kind = UNAUTHORIZED, http_status = Some 401,
        retryable = False\<rparr>)"
  using error_message_extraction
      [of "\<lparr>status_code = 429,
        json_result = Some (JObject [(''message'', JString []), (''error'', JString ''slow down'')])\<rparr>"
        "answering (\<lambda>n. RequestError []) :: string env"]
    error_message_extraction
      [of "\<lparr>status_code = 401, json_result = None\<rparr>"
        "answering (\<lambda>n. RequestError []) :: string env"]
  by (simp add: truthy_field_def str_int_def nat_digits.simps)


subsection \<open>Requests posted by the loop\<close>

lemma send_loop_Cons_cases:
  "send_loop E logs (a # rest) lst s = do_request E logs s \<or>
   (\<exists>e. send_loop E logs (a # rest) lst s =
      send_loop E logs rest e (snd (do_request E logs s))) \<or>
   (\<exists>e. a < 1024 \<and> send_loop E logs (a # rest) lst s =
      send_loop E logs rest e (snd (delay E a (1 / 10) (snd (do_request E logs s))))) \<or>
   send_loop E logs (a # rest) lst s = (Inl OverflowError, snd (do_request E logs s))"
proof (cases "do_request E logs s")
  case (Pair x s1)
  show ?thesis
  proof (cases x)
    case (Inr d)
    with Pair show ?thesis by simp
  next
    case (Inl ex)
    show ?thesis
    proof (cases ex)
      case (Raised_LogwellError e)
      with Pair Inl show ?thesis
        by (cases "1024 \<le> a") (auto simp add: delay_def)
    qed (use Pair Inl in simp_all)
  qed
qed

lemma send_loop_posted:
  "\<exists>k\<le>length as.
     posted (snd (send_loop E logs as lst s)) = posted s @ replicate k (build_request s logs)"
proof (induction as arbitrary: lst s)
  case Nil
  show ?case by simp
next
  case (Cons a rest)
  let ?s1 = "snd (do_request E logs s)"
  let ?s2 = "snd (delay E a (1 / 10) ?s1)"
  have b1: "build_request ?s1 logs = build_request s logs"
    by (rule build_request_cong) (simp_all add: do_request_keeps)
  have b2: "build_request ?s2 logs = build_request s logs"
    by (rule build_request_cong) (simp_all add: do_request_keeps delay_keeps)
  have one: "posted ?s1 = posted s @ replicate 1 (build_request s logs)"
    by (simp add: do_request_keeps)
  have more: "\<exists>k\<le>length (a # rest). posted (snd (send_loop E logs rest e t)) =
      posted s @ replicate k (build_request s logs)"
    if "posted t = posted s @ [build_request s logs]"
      and "build_request t logs = build_request s logs" for e t
  proof -
    from Cons.IH [of e t] obtain k where
      k: "k \<le> length rest"
      "posted (snd (send_loop E logs rest e t)) = posted t @ replicate k (build_request t logs)"
      by blast
    have "posted (snd (send_loop E logs rest e t)) =
        posted s @ replicate (Suc k) (build_request s logs)"
      using k(2) that by simp
    with k(1) show ?thesis
      by (intro exI [of _ "Suc k"]) simp
  qed
  from send_loop_Cons_cases [of E logs a rest lst s] show ?case
  proof (elim disjE exE conjE)
    assume "send_loop E logs (a # rest) lst s = do_request E logs s"
    then show ?thesis using one by (intro exI [of _ 1]) simp
  next
    fix e assume "send_loop E logs (a # rest) lst s = send_loop E logs rest e ?s1"
    then show ?thesis
      using more [of ?s1 e] b1 by (simp add: do_request_keeps del: send_loop.simps)
  next
    fix e assume "send_loop E logs (a # rest) lst s = send_loop E logs rest e ?s2"
    then show ?thesis
      using more [of ?s2 e] b2 by (simp add: do_request_keeps delay_keeps del: send_loop.simps)
  next
    assume "send_loop E logs (a # rest) lst s = (Inl OverflowError, ?s1)"
    then show ?thesis using one by (intro exI [of _ 1]) simp
  qed
qed

subsection \<open>The client handle\<close>

lemma close_keeps:
  "config (close s) = config s"
  "ingest_url (close s) = ingest_url s"
  "posted (close s) = posted s"
  "slept (close s) = slept s"
  "draws (close s) = draws s"
  "opened (close s) = opened s"
  "client (close s) = None"
  by (simp_all add: close_def split: option.split)

lemma do_request_client:
  "client (snd (do_request E logs s)) =
     Some (case client s of None \<Rightarrow> AsyncClient (timeout (config s)) | Some c \<Rightarrow> c)"
  "opened (snd (do_request E logs s)) =
     (case client s of None \<Rightarrow> Suc (opened s) | Some c \<Rightarrow> opened s)"
  by (simp_all add: do_request_eq get_client_def split: option.split)

lemma send_loop_keeps_client:
  "client s = Some c \<Longrightarrow>
   client (snd (send_loop E logs as lst s)) = Some c \<and>
   opened (snd (send_loop E logs as lst s)) = opened s"
proof (induction as arbitrary: lst s)
  case Nil
  then show ?case by simp
next
  case (Cons a rest)
  let ?s1 = "snd (do_request E logs s)"
  let ?s2 = "snd (delay E a (1 / 10) ?s1)"
  have s1: "client ?s1 = Some c" "opened ?s1 = opened s"
    using Cons.prems by (simp_all add: do_request_client)
  have s2: "client ?s2 = Some c" "opened ?s2 = opened s"
    using s1 by (simp_all add: delay_keeps)
  from send_loop_Cons_cases [of E logs a rest lst s] show ?case
  proof (elim disjE exE conjE)
    assume "send_loop E logs (a # rest) lst s = do_request E logs s"
    then show ?thesis using s1 by simp
  next
    fix e assume "send_loop E logs (a # rest) lst s = send_loop E logs rest e ?s1"
    then show ?thesis using Cons.IH [OF s1(1), of e] s1(2) by simp
  next
    fix e assume "send_loop E logs (a # rest) lst s = send_loop E logs rest e ?s2"
    then show ?thesis using Cons.IH [OF s2(1), of e] s2(2) by simp
  next
    assume "send_loop E logs (a # rest) lst s = (Inl OverflowError, ?s1)"
    then show ?thesis using s1 by simp
  qed
qed

lemma send_loop_opens_client:
  assumes "client s = None"
  shows "client (snd (send_loop E logs (a # rest) lst s)) =
       Some (AsyncClient (timeout (config s))) \<and>
     opened (snd (send_loop E logs (a # rest) lst s)) = Suc (opened s)"
proof -
  let ?c = "AsyncClient (timeout (config s))"
  let ?s1 = "snd (do_request E logs s)"
  let ?s2 = "snd (delay E a (1 / 10) ?s1)"
  have s1: "client ?s1 = Some ?c" "opened ?s1 = Suc (opened s)"
    using assms by (simp_all add: do_request_client)
  have s2: "client ?s2 = Some ?c" "opened ?s2 = Suc (opened s)"
    using s1 by (simp_all add: delay_keeps)
  from send_loop_Cons_cases [of E logs a rest lst s] show ?thesis
  proof (elim disjE exE conjE)
    assume "send_loop E logs (a # rest) lst s = do_request E logs s"
    then show ?thesis using s1 by simp
  next
    fix e assume "send_loop E logs (a # rest) lst s = send_loop E logs rest e ?s1"
    then show ?thesis using send_loop_keeps_client [OF s1(1), of E logs rest e] s1(2) by simp
  next
    fix e assume "send_loop E logs (a # rest) lst s = send_loop E logs rest e ?s2"
    then show ?thesis using send_loop_keeps_client [OF s2(1), of E logs rest e] s2(2) by simp
  next
    assume "send_loop E logs (a # rest) lst s = (Inl OverflowError, ?s1)"
    then show ?thesis using s1 by simp
  qed
qed


lemma send_loop_Cons_eq:
  "send_loop E logs (a # rest) lst s =
     (case executor_result E logs s (length (posted s)) of
        Inr d \<Rightarrow> (Inr d, snd (do_request E logs s))
      | Inl ex \<Rightarrow>
          (case ex of
             Raised_LogwellError e \<Rightarrow>
               if \<not> retryable e then (Inl ex, snd (do_request E logs s))
               else if int a < max_retries (config s) then
                 (if 1024 \<le> a then (Inl OverflowError, snd (do_request E logs s))
                  else send_loop E logs rest e
                         (snd (delay E a (1 / 10) (snd (do_request E logs s)))))
               else send_loop E logs rest e (snd (do_request E logs s))
           | _ \<Rightarrow> (Inl ex, snd (do_request E logs s))))"
  by (simp add: do_request_eq get_client_keeps delay_def split: sum.split exn.split)

lemma delay_trace_cong:
  "slept t = slept s \<Longrightarrow> draws t = draws s \<Longrightarrow>
   slept (snd (delay E a b t)) = slept (snd (delay E a b s)) \<and>
   draws (snd (delay E a b t)) = draws (snd (delay E a b s))"
  by (simp add: delay_def)

lemma send_loop_same_outcome:
  assumes "config t = config s" and "ingest_url t = ingest_url s" and "posted t = posted s"
    and "slept t = slept s" and "draws t = draws s"
  shows "fst (send_loop E logs as lst t) = fst (send_loop E logs as lst s) \<and>
     posted (snd (send_loop E logs as lst t)) = posted (snd (send_loop E logs as lst s)) \<and>
     slept (snd (send_loop E logs as lst t)) = slept (snd (send_loop E logs as lst s))"
  using assms
proof (induction as arbitrary: lst s t)
  case Nil
  then show ?case by simp
next
  case (Cons a rest)
  let ?s1 = "snd (do_request E logs s)" and ?t1 = "snd (do_request E logs t)"
  let ?s2 = "snd (delay E a (1 / 10) ?s1)" and ?t2 = "snd (delay E a (1 / 10) ?t1)"
  have br: "build_request t logs = build_request s logs"
    using Cons.prems by (simp add: build_request_def)
  have x: "executor_result E logs t (length (posted t)) =
      executor_result E logs s (length (posted s))"
    using Cons.prems by (simp add: executor_result_def br)
  have r1: "config ?t1 = config ?s1" "ingest_url ?t1 = ingest_url ?s1"
    "posted ?t1 = posted ?s1" "slept ?t1 = slept ?s1" "draws ?t1 = draws ?s1"
    using Cons.prems by (simp_all add: do_request_keeps br)
  have r2: "config ?t2 = config ?s2" "ingest_url ?t2 = ingest_url ?s2"
    "posted ?t2 = posted ?s2" "slept ?t2 = slept ?s2" "draws ?t2 = draws ?s2"
    using r1 delay_trace_cong [OF r1(4,5), of E a "1 / 10"] by (simp_all add: delay_keeps)
  note ih1 = Cons.IH [OF r1]
  note ih2 = Cons.IH [OF r2]
  show ?case
    unfolding send_loop_Cons_eq x Cons.prems(1)
    using r1(3,4) ih1 ih2
    by (simp split: sum.split exn.split del: send_loop.simps)
qed

text \<open>
  Claim C10. \<^verbatim>\<open>_get_client\<close> constructs a client whenever the handle is absent and
  returns the one it holds otherwise; \<^verbatim>\<open>close\<close> closes the client it holds and
  resets the handle to absent, and does nothing on a transport that is already closed or
  was never used. A \<open>send\<close> after \<open>close\<close> proceeds as if the transport had not
  been closed: the same outcome, the same requests and sleeps, with one new client
  constructed and held afterwards.
\<close>

theorem send_after_close_recreates_client:
  "(client s = None \<longrightarrow>
      get_client s =
        (AsyncClient (timeout (config s)),
         s\<lparr>client := Some (AsyncClient (timeout (config s))), opened := Suc (opened s)\<rparr>)) \<and>
   (\<forall>c. client s = Some c \<longrightarrow>
      get_client s = (c, s) \<and> close s = s\<lparr>client := None, aclosed := Suc (aclosed s)\<rparr>) \<and>
   client (close s) = None \<and>
   (client s = None \<longrightarrow> close s = s) \<and>
   close (close s) = close s \<and>
   close (init cfg :: 'e state) = init cfg \<and>
   fst (send E logs (close s)) = fst (send E logs s) \<and>
   posted (snd (send E logs (close s))) = posted (snd (send E logs s)) \<and>
   slept (snd (send E logs (close s))) = slept (snd (send E logs s)) \<and>
   (0 \<le> max_retries (config s) \<longrightarrow>
      client (snd (send E logs (close s))) = Some (AsyncClient (timeout (config s))) \<and>
      opened (snd (send E logs (close s))) = Suc (opened s))"
proof -
  have a: "client s = None \<longrightarrow>
      get_client s =
        (AsyncClient (timeout (config s)),
         s\<lparr>client := Some (AsyncClient (timeout (config s))), opened := Suc (opened s)\<rparr>)"
    by (simp add: get_client_def)
  have b: "\<forall>c. client s = Some c \<longrightarrow>
      get_client s = (c, s) \<and> close s = s\<lparr>client := None, aclosed := Suc (aclosed s)\<rparr>"
    by (simp add: get_client_def close_def)
  have c: "client (close s) = None" "client s = None \<longrightarrow> close s = s"
    "close (close s) = close s" "close (init cfg :: 'e state) = init cfg"
    by (simp_all add: close_def init_def split: option.split)
  have d: "fst (send E logs (close s)) = fst (send E logs s) \<and>
      posted (snd (send E logs (close s))) = posted (snd (send E logs s)) \<and>
      slept (snd (send E logs (close s))) = slept (snd (send E logs s))"
    unfolding send_def close_keeps
    by (rule send_loop_same_outcome) (simp_all add: close_keeps)
  have e: "0 \<le> max_retries (config s) \<longrightarrow>
      client (snd (send E logs (close s))) = Some (AsyncClient (timeout (config s))) \<and>
      opened (snd (send E logs (close s))) = Suc (opened s)"
  proof
    assume "0 \<le> max_retries (config s)"
    then have "0 \<le> max_retries (config (close s))" by (simp add: close_keeps)
    from send_first_attempt [OF this, of E logs]
      send_loop_opens_client [of "close s" E logs 0]
    show "client (snd (send E logs (close s))) = Some (AsyncClient (timeout (config s))) \<and>
      opened (snd (send E logs (close s))) = Suc (opened s)"
      by (simp add: close_keeps del: send_loop.simps)
  qed
  from a b c d e show ?thesis by blast
qed


lemma sample_success:
  "fst (send (answering (\<lambda>n. Response \<lparr>status_code = 200,
          json_result = Some (JObject [(''accepted'', JInt 1), (''rejected'', JInt 0)])\<rparr>))
        [''boot'']
        ((init sample_config)\<lparr>client := Some (AsyncClient 30), opened := 1\<rparr>)) =
   Inr (JObject [(''accepted'', JInt 1), (''rejected'', JInt 0)])"
  by (simp add: send_first_attempt init_def sample_config_def send_loop_Cons_eq
      executor_result_def answering_def handle_result_def is_success_def
      del: send_loop.simps)

theorem send_after_close_recreates_client_witness:
  "get_client (init sample_config :: string state) =
     (AsyncClient 30, (init sample_config)\<lparr>client := Some (AsyncClient 30), opened := 1\<rparr>) \<and>
   close ((init sample_config :: string state)\<lparr>client := Some (AsyncClient 30), opened := 1\<rparr>) =
     (init sample_config)\<lparr>opened := 1, aclosed := 1\<rparr> \<and>
   fst (send (answering (\<lambda>n. Response \<lparr>status_code = 200,
          json_result = Some (JObject [(''accepted'', JInt 1), (''rejected'', JInt 0)])\<rparr>))
        [''boot'']
        (close ((init sample_config)\<lparr>client := Some (AsyncClient 30), opened := 1\<rparr>))) =
     Inr (JObject [(''accepted'', JInt 1), (''rejected'', JInt 0)]) \<and>
   client (snd (send (answering (\<lambda>n. Response \<lparr>status_code = 200,
          json_result = Some (JObject [(''accepted'', JInt 1), (''rejected'', JInt 0)])\<rparr>))
        [''boot'']
        (close ((init sample_config)\<lparr>client := Some (AsyncClient 30), opened := 1\<rparr>)))) =
     Some (AsyncClient 30) \<and>
   opened (snd (send (answering (\<lambda>n. Response \<lparr>status_code = 200,
          json_result = Some (JObject [(''accepted'', JInt 1), (''rejected'', JInt 0)])\<rparr>))
        [''boot'']
        (close ((init sample_config)\<lparr>client := Some (AsyncClient 30), opened := 1\<rparr>)))) = 2"
proof -
  note fresh = send_after_close_recreates_client
      [of "init sample_config :: string state" sample_config
        "(answering (\<lambda>n. Response \<lparr>status_code = 200,
          json_result = Some (JObject [(''accepted'', JInt 1), (''rejected'', JInt 0)])\<rparr>))"
        "[''boot'']"]
  note used = send_after_close_recreates_client
      [of "((init sample_config)\<lparr>client := Some (AsyncClient 30), opened := 1\<rparr>) :: string state"
        sample_config
        "(answering (\<lambda>n. Response \<lparr>status_code = 200,
          json_result = Some (JObject [(''accepted'', JInt 1), (''rejected'', JInt 0)])\<rparr>))"
        "[''boot'']"]
  have g: "get_client (init sample_config :: string state) =
     (AsyncClient 30, (init sample_config)\<lparr>client := Some (AsyncClient 30), opened := 1\<rparr>)"
    using fresh [THEN conjunct1] by (simp add: init_def sample_config_def)
  have c: "close ((init sample_config :: string state)\<lparr>client := Some (AsyncClient 30), opened := 1\<rparr>) =
     (init sample_config)\<lparr>opened := 1, aclosed := 1\<rparr>"
    using used [THEN conjunct2, THEN conjunct1] by (simp add: init_def sample_config_def)
  have f: "fst (send (answering (\<lambda>n. Response \<lparr>status_code = 200,
          json_result = Some (JObject [(''accepted'', JInt 1), (''rejected'', JInt 0)])\<rparr>))
        [''boot'']
        (close ((init sample_config)\<lparr>client := Some (AsyncClient 30), opened := 1\<rparr>))) =
     Inr (JObject [(''accepted'', JInt 1), (''rejected'', JInt 0)])"
    using used [THEN conjunct2, THEN conjunct2, THEN conjunct2, THEN conjunct2,
        THEN conjunct2, THEN conjunct2, THEN conjunct1]
    by (simp only: sample_success)
  have o: "client (snd (send (answering (\<lambda>n. Response \<lparr>status_code = 200,
          json_result = Some (JObject [(''accepted'', JInt 1), (''rejected'', JInt 0)])\<rparr>))
        [''boot'']
        (close ((init sample_config)\<lparr>client := Some (AsyncClient 30), opened := 1\<rparr>)))) =
     Some (AsyncClient 30) \<and>
   opened (snd (send (answering (\<lambda>n. Response \<lparr>status_code = 200,
          json_result = Some (JObject [(''accepted'', JInt 1), (''rejected'', JInt 0)])\<rparr>))
        [''boot'']
        (close ((init sample_config)\<lparr>client := Some (AsyncClient 30), opened := 1\<rparr>)))) = 2"
    using used [THEN conjunct2, THEN conjunct2, THEN conjunct2, THEN conjunct2,
        THEN conjunct2, THEN conjunct2, THEN conjunct2, THEN conjunct2, THEN conjunct2]
    by (simp add: init_def sample_config_def)
  from g c f o show ?thesis by blast
qed

subsection \<open>Backoff and the exhaustion of retries\<close>

lemma delay_below_overflow:
  assumes "attempt < 1024" and "0 \<le> rnd E (draws s)" and "rnd E (draws s) < 1"
  shows "\<exists>d. delay E attempt (1 / 10) s =
         (Inr (), s\<lparr>slept := slept s @ [d], draws := Suc (draws s)\<rparr>) \<and>
       d = min (1 / 10 * 2 ^ attempt) 10 + rnd E (draws s) * min (1 / 10 * 2 ^ attempt) 10 * (3 / 10) \<and>
       min (1 / 10 * 2 ^ attempt) 10 \<le> d \<and>
       d \<le> min (1 / 10 * 2 ^ attempt) 10 * (13 / 10) \<and>
       0 < d \<and> d \<le> 13"
proof -
  define c :: real where "c = min (1 / 10 * 2 ^ attempt) 10"
  define w where "w = rnd E (draws s) * c"
  have c: "0 < c" "c \<le> 10"
    by (simp_all add: c_def)
  have w: "0 \<le> w" "w \<le> c"
    unfolding w_def using c(1) assms(2,3)
    by (simp_all add: mult_left_le_one_le)
  have d: "delay E attempt (1 / 10) s =
      (Inr (), s\<lparr>slept := slept s @ [c + w * (3 / 10)], draws := Suc (draws s)\<rparr>)"
    using assms(1) by (simp add: delay_def delay_secs_def jitter_def c_def w_def)
  have "c \<le> c + w * (3 / 10)" "c + w * (3 / 10) \<le> c * (13 / 10)"
    "0 < c + w * (3 / 10)" "c + w * (3 / 10) \<le> 13"
    using c w by linarith+
  with d show ?thesis
    unfolding c_def w_def by blast
qed

lemma upt_split_at:
  assumes "k \<le> n"
  shows "[0 ..< Suc n] = [0 ..< 0 + k] @ k # [Suc k ..< Suc n]"
proof -
  have "[0 ..< k + (Suc n - k)] = [0 ..< k] @ [k ..< k + (Suc n - k)]"
    by (rule upt_add_eq_append) simp
  moreover have "k + (Suc n - k) = Suc n"
    using assms by simp
  moreover have "[k ..< Suc n] = k # [Suc k ..< Suc n]"
    using assms by (simp add: upt_conv_Cons del: upt_Suc)
  ultimately show ?thesis
    by (simp del: upt_Suc)
qed


lemma send_after_failures:
  assumes "int k \<le> max_retries (config s)" and "k \<le> 1024"
    and "\<forall>j<k. \<exists>e. executor_result E logs s (length (posted s) + j) =
           Inl (Raised_LogwellError e) \<and> retryable e"
  shows "\<exists>e s'. send E logs s =
         send_loop E logs (k # [Suc k ..< Suc (nat (max_retries (config s)))]) e s' \<and>
       config s' = config s \<and>
       executor_result E logs s' (length (posted s')) =
         executor_result E logs s (length (posted s) + k) \<and>
       posted (snd (do_request E logs s')) =
         posted s @ replicate (Suc k) (build_request s logs) \<and>
       length (slept (snd (do_request E logs s'))) = length (slept s) + k"
proof -
  let ?m = "nat (max_retries (config s))"
  let ?rest = "k # [Suc k ..< Suc ?m]"
  let ?placeholder = "\<lparr>message = ''Max retries exceeded'', kind = NETWORK_ERROR,
        http_status = None, retryable = True\<rparr>"
  have km: "k \<le> ?m" using assms(1) by simp
  have m: "nat (max_retries (config s) + 1) = Suc ?m"
    using assms(1) by simp
  have start: "send E logs s = send_loop E logs ([0 ..< 0 + k] @ ?rest) ?placeholder s"
    unfolding send_def m upt_split_at [OF km] ..
  have "int (0 + k) \<le> max_retries (config s)" "0 + k \<le> 1024"
    using assms(1,2) by simp_all
  from send_loop_retry_prefix [OF assms(3) this, of ?rest ?placeholder]
  obtain e s' where
    p: "send_loop E logs ([0 ..< 0 + k] @ ?rest) ?placeholder s = send_loop E logs ?rest e s'"
      "config s' = config s" "ingest_url s' = ingest_url s"
      "posted s' = posted s @ replicate k (build_request s logs)"
      "length (slept s') = length (slept s) + k"
    by blast
  have br: "build_request s' logs = build_request s logs"
    by (rule build_request_cong) (simp_all add: p)
  have x: "executor_result E logs s' (length (posted s')) =
      executor_result E logs s (length (posted s) + k)"
    by (simp add: executor_result_def br p(4))
  have q: "posted (snd (do_request E logs s')) =
      posted s @ replicate (Suc k) (build_request s logs)"
    by (simp add: do_request_keeps br p(4) replicate_append_same)
  have sl: "length (slept (snd (do_request E logs s'))) = length (slept s) + k"
    by (simp add: do_request_keeps p(5))
  have "send E logs s = send_loop E logs ?rest e s'"
    using start p(1) by (rule trans)
  with p(2) x q sl show ?thesis by blast
qed

lemma send_exhausts_retries:
  assumes "0 \<le> max_retries (config s)" and "max_retries (config s) \<le> 1024"
    and "\<forall>j\<le>nat (max_retries (config s)).
           \<exists>e. executor_result E logs s (length (posted s) + j) =
             Inl (Raised_LogwellError e) \<and> retryable e"
  shows "\<exists>e s'. send E logs s = (Inl (Raised_LogwellError e), s') \<and>
       executor_result E logs s (length (posted s) + nat (max_retries (config s))) =
         Inl (Raised_LogwellError e) \<and>
       posted s' =
         posted s @ replicate (nat (max_retries (config s)) + 1) (build_request s logs) \<and>
       length (slept s') = length (slept s) + nat (max_retries (config s))"
proof -
  let ?m = "nat (max_retries (config s))"
  have a: "int ?m \<le> max_retries (config s)" "?m \<le> 1024"
    using assms(1,2) by simp_all
  have b: "\<forall>j<?m. \<exists>e. executor_result E logs s (length (posted s) + j) =
           Inl (Raised_LogwellError e) \<and> retryable e"
    using assms(3) by simp
  from send_after_failures [OF a b] obtain e0 s0 where
    p: "send E logs s = send_loop E logs (?m # [Suc ?m ..< Suc ?m]) e0 s0"
      "config s0 = config s"
      "executor_result E logs s0 (length (posted s0)) =
         executor_result E logs s (length (posted s) + ?m)"
      "posted (snd (do_request E logs s0)) = posted s @ replicate (Suc ?m) (build_request s logs)"
      "length (slept (snd (do_request E logs s0))) = length (slept s) + ?m"
    by blast
  from assms(3) obtain e where
    e: "executor_result E logs s (length (posted s) + ?m) = Inl (Raised_LogwellError e)"
      "retryable e"
    by blast
  have "send E logs s = (Inl (Raised_LogwellError e), snd (do_request E logs s0))"
    unfolding p(1) send_loop_Cons_eq p(3) e(1) using e(2) assms(1)
    by (simp add: p(2))
  with e(1) p(4,5) show ?thesis by auto
qed

lemma send_succeeds_after_failures:
  assumes "int k \<le> max_retries (config s)" and "k \<le> 1024"
    and "\<forall>j<k. \<exists>e. executor_result E logs s (length (posted s) + j) =
           Inl (Raised_LogwellError e) \<and> retryable e"
    and "executor_result E logs s (length (posted s) + k) = Inr d"
  shows "\<exists>s'. send E logs s = (Inr d, s') \<and>
       posted s' = posted s @ replicate (k + 1) (build_request s logs) \<and>
       length (slept s') = length (slept s) + k"
proof -
  from send_after_failures [OF assms(1-3)] obtain e0 s0 where
    p: "send E logs s =
          send_loop E logs (k # [Suc k ..< Suc (nat (max_retries (config s)))]) e0 s0"
      "executor_result E logs s0 (length (posted s0)) =
         executor_result E logs s (length (posted s) + k)"
      "posted (snd (do_request E logs s0)) = posted s @ replicate (Suc k) (build_request s logs)"
      "length (slept (snd (do_request E logs s0))) = length (slept s) + k"
    by blast
  have "send E logs s = (Inr d, snd (do_request E logs s0))"
    unfolding p(1) send_loop_Cons_eq p(2) assms(4) by simp
  with p(3,4) show ?thesis by auto
qed

lemma send_overflows:
  assumes "1024 < max_retries (config s)"
    and "\<forall>j\<le>1024. \<exists>e. executor_result E logs s (length (posted s) + j) =
           Inl (Raised_LogwellError e) \<and> retryable e"
  shows "\<exists>s'. send E logs s = (Inl OverflowError, s') \<and>
       posted s' = posted s @ replicate 1025 (build_request s logs) \<and>
       length (slept s') = length (slept s) + 1024"
proof -
  have a: "int 1024 \<le> max_retries (config s)" "(1024 :: nat) \<le> 1024"
    using assms(1) by simp_all
  have b: "\<forall>j<1024. \<exists>e. executor_result E logs s (length (posted s) + j) =
           Inl (Raised_LogwellError e) \<and> retryable e"
    using assms(2) by simp
  from send_after_failures [OF a b] obtain e0 s0 where
    p: "send E logs s =
          send_loop E logs (1024 # [Suc 1024 ..< Suc (nat (max_retries (config s)))]) e0 s0"
      "config s0 = config s"
      "executor_result E logs s0 (length (posted s0)) =
         executor_result E logs s (length (posted s) + 1024)"
      "posted (snd (do_request E logs s0)) =
         posted s @ replicate (Suc 1024) (build_request s logs)"
      "length (slept (snd (do_request E logs s0))) = length (slept s) + 1024"
    by blast
  from assms(2) obtain e where
    e: "executor_result E logs s (length (posted s) + 1024) = Inl (Raised_LogwellError e)"
      "retryable e"
    by blast
  have "send E logs s = (Inl OverflowError, snd (do_request E logs s0))"
    unfolding p(1) send_loop_Cons_eq p(3) e(1) using e(2) assms(1)
    by (simp add: p(2))
  moreover have "Suc 1024 = (1025 :: nat)" by simp
  ultimately show ?thesis using p(4,5) by auto
qed


text \<open>
  Claim C4 asks, for every attempt, for a sleep of the capped delay plus jitter, between
  the capped delay and 1.3 times it and never above 13 seconds; \<open>delay_below_overflow\<close>
  above shows this for attempts below 1024 and draws in \<open>[0, 1)\<close>, in real arithmetic.
  At attempt 1024 \<^verbatim>\<open>_delay\<close> does not sleep: the conversion of \<^verbatim>\<open>2**1024\<close> to a
  float raises \<^verbatim>\<open>OverflowError\<close> before the cap of 10 seconds is applied.
\<close>

theorem delay_raises_overflow_at_1024:
  "delay E 1024 (1 / 10) s = (Inl OverflowError, s) \<and>
   slept (snd (delay E 1024 (1 / 10) s)) = slept s"
  by (simp add: delay_def)

lemma refused_is_retryable:
  "handle_result E (RequestError ''refused'') =
     Inl (Raised_LogwellError
       \<lparr>message = ''Network error: refused'', kind = NETWORK_ERROR, http_status = None,
        retryable = True\<rparr>)"
  by (simp add: handle_result_def)

text \<open>
  Claim C2 asks for \<open>max_retries + 1\<close> requests, \<open>max_retries\<close> sleeps and the last
  retryable error when every attempt fails retryably; \<open>send_exhausts_retries\<close> above
  shows this for \<open>max_retries\<close> up to 1024. With \<open>max_retries = 1025\<close> and every request
  refused, \<open>send\<close> posts 1025 requests, sleeps 1024 times and raises the
  \<^verbatim>\<open>OverflowError\<close> of the backoff after attempt 1024; attempt 1025 is never made.
\<close>

theorem send_overflows_with_1025_retries:
  "fst (send (answering (\<lambda>n. RequestError ''refused'')) [''boot'']
        (init (sample_config\<lparr>max_retries := 1025\<rparr>))) = Inl OverflowError \<and>
   length (posted (snd (send (answering (\<lambda>n. RequestError ''refused'')) [''boot'']
        (init (sample_config\<lparr>max_retries := 1025\<rparr>))))) = 1025 \<and>
   length (slept (snd (send (answering (\<lambda>n. RequestError ''refused'')) [''boot'']
        (init (sample_config\<lparr>max_retries := 1025\<rparr>))))) = 1024"
proof -
  let ?E = "answering (\<lambda>n. RequestError ''refused'') :: string env"
  let ?s = "init (sample_config\<lparr>max_retries := 1025\<rparr>) :: string state"
  have a: "1024 < max_retries (config ?s)"
    by (simp add: init_def)
  have b: "\<forall>j\<le>1024. \<exists>e. executor_result ?E [''boot''] ?s (length (posted ?s) + j) =
      Inl (Raised_LogwellError e) \<and> retryable e"
    by (simp add: executor_result_def answering_def refused_is_retryable)
  from send_overflows [OF a b] obtain s' where
    "send ?E [''boot''] ?s = (Inl OverflowError, s')"
    "posted s' = posted ?s @ replicate 1025 (build_request ?s [''boot''])"
    "length (slept s') = length (slept ?s) + 1024"
    by blast
  then show ?thesis
    by (simp add: init_def)
qed

text \<open>
  Claim C5 asks that a success on attempt \<open>k\<close> after \<open>k\<close> retryable failures is returned
  after \<open>k + 1\<close> requests and \<open>k\<close> sleeps; \<open>send_succeeds_after_failures\<close> above
  shows this for \<open>k\<close> up to 1024, and \<open>sample_retry_scenario\<close> below runs the
  scenario with three failures. With \<open>max_retries = 1025\<close>, the first 1025 requests
  refused and request number 1025 answered with a success, \<open>send\<close> never reaches that
  request: it raises the \<^verbatim>\<open>OverflowError\<close> of the backoff after attempt 1024.
\<close>

theorem send_overflows_before_success_on_attempt_1025:
  "executor_result
     (answering (\<lambda>n. if n < 1025 then RequestError ''refused''
        else Response \<lparr>status_code = 200,
          json_result = Some (JObject [(''accepted'', JInt 10), (''rejected'', JInt 0)])\<rparr>))
     [''boot''] (init (sample_config\<lparr>max_retries := 1025\<rparr>)) 1025 =
     Inr (JObject [(''accepted'', JInt 10), (''rejected'', JInt 0)]) \<and>
   fst (send
     (answering (\<lambda>n. if n < 1025 then RequestError ''refused''
        else Response \<lparr>status_code = 200,
          json_result = Some (JObject [(''accepted'', JInt 10), (''rejected'', JInt 0)])\<rparr>))
     [''boot''] (init (sample_config\<lparr>max_retries := 1025\<rparr>))) = Inl OverflowError \<and>
   length (posted (snd (send
     (answering (\<lambda>n. if n < 1025 then RequestError ''refused''
        else Response \<lparr>status_code = 200,
          json_result = Some (JObject [(''accepted'', JInt 10), (''rejected'', JInt 0)])\<rparr>))
     [''boot''] (init (sample_config\<lparr>max_retries := 1025\<rparr>))))) = 1025 \<and>
   length (slept (snd (send
     (answering (\<lambda>n. if n < 1025 then RequestError ''refused''
        else Response \<lparr>status_code = 200,
          json_result = Some (JObject [(''accepted'', JInt 10), (''rejected'', JInt 0)])\<rparr>))
     [''boot''] (init (sample_config\<lparr>max_retries := 1025\<rparr>))))) = 1024"
proof -
  let ?E = "answering (\<lambda>n. if n < 1025 then RequestError ''refused''
        else Response \<lparr>status_code = 200,
          json_result = Some (JObject [(''accepted'', JInt 10), (''rejected'', JInt 0)])\<rparr>)
      :: string env"
  let ?s = "init (sample_config\<lparr>max_retries := 1025\<rparr>) :: string state"
  have a: "1024 < max_retries (config ?s)"
    by (simp add: init_def)
  have b: "\<forall>j\<le>1024. \<exists>e. executor_result ?E [''boot''] ?s (length (posted ?s) + j) =
      Inl (Raised_LogwellError e) \<and> retryable e"
    by (simp add: executor_result_def answering_def refused_is_retryable init_def)
  have c: "executor_result ?E [''boot''] ?s 1025 =
      Inr (JObject [(''accepted'', JInt 10), (''rejected'', JInt 0)])"
    by (simp add: executor_result_def answering_def handle_result_def is_success_def)
  from send_overflows [OF a b] obtain s' where
    "send ?E [''boot''] ?s = (Inl OverflowError, s')"
    "posted s' = posted ?s @ replicate 1025 (build_request ?s [''boot''])"
    "length (slept s') = length (slept ?s) + 1024"
    by blast
  then have "fst (send ?E [''boot''] ?s) = Inl OverflowError \<and>
      length (posted (snd (send ?E [''boot''] ?s))) = 1025 \<and>
      length (slept (snd (send ?E [''boot''] ?s))) = 1024"
    by (simp add: init_def)
  with c show ?thesis by (rule conjI)
qed

lemma sample_retry_scenario:
  "fst (send
     (answering (\<lambda>n. if n < 3 then RequestError ''refused''
        else Response \<lparr>status_code = 200,
          json_result = Some (JObject [(''accepted'', JInt 10), (''rejected'', JInt 0)])\<rparr>))
     [''boot''] (init sample_config)) =
       Inr (JObject [(''accepted'', JInt 10), (''rejected'', JInt 0)]) \<and>
   length (posted (snd (send
     (answering (\<lambda>n. if n < 3 then RequestError ''refused''
        else Response \<lparr>status_code = 200,
          json_result = Some (JObject [(''accepted'', JInt 10), (''rejected'', JInt 0)])\<rparr>))
     [''boot''] (init sample_config)))) = 4 \<and>
   length (slept (snd (send
     (answering (\<lambda>n. if n < 3 then RequestError ''refused''
        else Response \<lparr>status_code = 200,
          json_result = Some (JObject [(''accepted'', JInt 10), (''rejected'', JInt 0)])\<rparr>))
     [''boot''] (init sample_config)))) = 3"
proof -
  let ?E = "(answering (\<lambda>n. if n < 3 then RequestError ''refused''
        else Response \<lparr>status_code = 200,
          json_result = Some (JObject [(''accepted'', JInt 10), (''rejected'', JInt 0)])\<rparr>))
      :: string env"
  let ?s = "init sample_config :: string state"
  have a: "int 3 \<le> max_retries (config ?s)" "(3 :: nat) \<le> 1024"
    by (simp_all add: init_def sample_config_def)
  have b: "\<forall>j<3. \<exists>e. executor_result ?E [''boot''] ?s (length (posted ?s) + j) =
      Inl (Raised_LogwellError e) \<and> retryable e"
    by (simp add: executor_result_def answering_def refused_is_retryable init_def)
  have c: "executor_result ?E [''boot''] ?s (length (posted ?s) + 3) =
      Inr (JObject [(''accepted'', JInt 10), (''rejected'', JInt 0)])"
    by (simp add: executor_result_def answering_def handle_result_def is_success_def init_def)
  from send_succeeds_after_failures [OF a b c] obtain s' where
    "send ?E [''boot''] ?s = (Inr (JObject [(''accepted'', JInt 10), (''rejected'', JInt 0)]), s')"
    "posted s' = posted ?s @ replicate (3 + 1) (build_request ?s [''boot''])"
    "length (slept s') = length (slept ?s) + 3"
    by blast
  then show ?thesis
    by (simp add: init_def)
qed

subsection \<open>Requests of a transport in use\<close>

lemma send_loop_keeps_config:
  "config (snd (send_loop E logs as lst s)) = config s \<and>
   ingest_url (snd (send_loop E logs as lst s)) = ingest_url s"
proof (induction as arbitrary: lst s)
  case Nil
  show ?case by simp
next
  case (Cons a rest)
  let ?s1 = "snd (do_request E logs s)"
  let ?s2 = "snd (delay E a (1 / 10) ?s1)"
  from send_loop_Cons_cases [of E logs a rest lst s] show ?case
  proof (elim disjE exE conjE)
    assume "send_loop E logs (a # rest) lst s = do_request E logs s"
    then show ?thesis by (simp add: do_request_keeps)
  next
    fix e assume "send_loop E logs (a # rest) lst s = send_loop E logs rest e ?s1"
    then show ?thesis using Cons.IH [of e ?s1] by (simp add: do_request_keeps)
  next
    fix e assume "send_loop E logs (a # rest) lst s = send_loop E logs rest e ?s2"
    then show ?thesis using Cons.IH [of e ?s2] by (simp add: do_request_keeps delay_keeps)
  next
    assume "send_loop E logs (a # rest) lst s = (Inl OverflowError, ?s1)"
    then show ?thesis by (simp add: do_request_keeps)
  qed
qed

lemma send_keeps_config:
  "config (snd (send E logs s)) = config s"
  "ingest_url (snd (send E logs s)) = ingest_url s"
  by (simp_all add: send_def send_loop_keeps_config)

lemma run_keeps_config:
  "config (run E calls s) = config s \<and> ingest_url (run E calls s) = ingest_url s"
  by (induction E calls s rule: run.induct) (simp_all add: send_keeps_config close_keeps)

lemma run_init:
  "config (run E calls (init cfg)) = cfg"
  "ingest_url (run E calls (init cfg)) = endpoint cfg @ ''/v1/ingest''"
  by (simp_all add: run_keeps_config init_def)

lemma send_loop_posts_first:
  "\<exists>k. 1 \<le> k \<and> k \<le> length (a # rest) \<and>
     posted (snd (send_loop E logs (a # rest) lst s)) =
       posted s @ replicate k (build_request s logs)"
proof -
  from send_loop_posted [of "a # rest" E logs lst s] obtain k where
    k: "k \<le> length (a # rest)"
    "posted (snd (send_loop E logs (a # rest) lst s)) =
       posted s @ replicate k (build_request s logs)"
    by blast
  let ?s1 = "snd (do_request E logs s)"
  let ?s2 = "snd (delay E a (1 / 10) ?s1)"
  have grow: "length (posted s) < length (posted (snd (send_loop E logs rest e t)))"
    if "posted t = posted s @ [build_request s logs]" for e t
  proof -
    from send_loop_posted [of rest E logs e t] obtain j where
      "posted (snd (send_loop E logs rest e t)) = posted t @ replicate j (build_request t logs)"
      by blast
    with that show ?thesis by simp
  qed
  have "length (posted s) < length (posted (snd (send_loop E logs (a # rest) lst s)))"
    using send_loop_Cons_cases [of E logs a rest lst s]
  proof (elim disjE exE conjE)
    assume "send_loop E logs (a # rest) lst s = do_request E logs s"
    then show ?thesis by (simp add: do_request_keeps)
  next
    fix e assume "send_loop E logs (a # rest) lst s = send_loop E logs rest e ?s1"
    then show ?thesis using grow [of ?s1 e] by (simp add: do_request_keeps)
  next
    fix e assume "send_loop E logs (a # rest) lst s = send_loop E logs rest e ?s2"
    then show ?thesis using grow [of ?s2 e] by (simp add: do_request_keeps delay_keeps)
  next
    assume "send_loop E logs (a # rest) lst s = (Inl OverflowError, ?s1)"
    then show ?thesis by (simp add: do_request_keeps)
  qed
  with k(2) have "1 \<le> k" by simp
  with k show ?thesis by blast
qed


text \<open>
  Claim C8. Take a transport built from any configuration and used through any calls of
  \<open>send\<close> and \<open>close\<close>. One attempt hands exactly one request to
  \<^verbatim>\<open>client.post\<close>: its URL is the configured endpoint followed by
  \<^verbatim>\<open>/v1/ingest\<close>, its headers are the bearer authorization with the API key and the
  JSON content type, and its \<^verbatim>\<open>json=\<close> argument is the batch as \<open>send\<close> received
  it, empty or not. Every request that a call of \<open>send\<close> posts is this same request;
  there are at most \<open>max_retries + 1\<close> of them, and at least one when \<open>max_retries\<close>
  is not negative.
\<close>

theorem every_attempt_posts_the_batch:
  "posted (snd (do_request E logs (run E calls (init cfg)))) =
     posted (run E calls (init cfg)) @
       [\<lparr>req_url = endpoint cfg @ ''/v1/ingest'',
         req_headers =
           [(''Authorization'', ''Bearer '' @ api_key cfg),
            (''Content-Type'', ''application/json'')],
         req_json = logs\<rparr>] \<and>
   (\<exists>k\<le>nat (max_retries cfg + 1).
      (0 \<le> max_retries cfg \<longrightarrow> 1 \<le> k) \<and>
      posted (snd (send E logs (run E calls (init cfg)))) =
        posted (run E calls (init cfg)) @
        replicate k
        \<lparr>req_url = endpoint cfg @ ''/v1/ingest'',
         req_headers =
           [(''Authorization'', ''Bearer '' @ api_key cfg),
            (''Content-Type'', ''application/json'')],
         req_json = logs\<rparr>)"
proof -
  let ?s = "run E calls (init cfg)"
  have b: "build_request ?s logs =
      \<lparr>req_url = endpoint cfg @ ''/v1/ingest'',
         req_headers =
           [(''Authorization'', ''Bearer '' @ api_key cfg),
            (''Content-Type'', ''application/json'')],
         req_json = logs\<rparr>"
    by (simp add: build_request_def run_init)
  have one: "posted (snd (do_request E logs ?s)) = posted ?s @ [build_request ?s logs]"
    by (simp add: do_request_keeps)
  have many: "\<exists>k\<le>nat (max_retries cfg + 1).
      (0 \<le> max_retries cfg \<longrightarrow> 1 \<le> k) \<and>
      posted (snd (send E logs ?s)) = posted ?s @ replicate k (build_request ?s logs)"
  proof (cases "0 \<le> max_retries cfg")
    case True
    then have m: "0 \<le> max_retries (config ?s)" by (simp add: run_init)
    from send_loop_posts_first
      [of 0 "[1 ..< nat (max_retries (config ?s) + 1)]" E logs
        "\<lparr>message = ''Max retries exceeded'', kind = NETWORK_ERROR,
          http_status = None, retryable = True\<rparr>" ?s]
    obtain k where
      "1 \<le> k" "k \<le> length (0 # [1 ..< nat (max_retries (config ?s) + 1)])"
      "posted (snd (send E logs ?s)) = posted ?s @ replicate k (build_request ?s logs)"
      unfolding send_first_attempt [OF m] by blast
    moreover have "length (0 # [1 ..< nat (max_retries (config ?s) + 1)]) =
        nat (max_retries cfg + 1)"
      using True by (simp add: run_init)
    ultimately show ?thesis by auto
  next
    case False
    from send_loop_posted
      [of "[0 ..< nat (max_retries (config ?s) + 1)]" E logs
        "\<lparr>message = ''Max retries exceeded'', kind = NETWORK_ERROR,
          http_status = None, retryable = True\<rparr>" ?s]
    obtain k where
      "k \<le> length [0 ..< nat (max_retries (config ?s) + 1)]"
      "posted (snd (send E logs ?s)) = posted ?s @ replicate k (build_request ?s logs)"
      unfolding send_def by blast
    with False show ?thesis by (auto simp add: run_init)
  qed
  from one many show ?thesis
    unfolding b by (rule conjI)
qed

theorem every_attempt_posts_the_batch_witness:
  "posted (snd (do_request (answering (\<lambda>n. RequestError ''refused'')) [''boot'', ''ready''] (init sample_config))) =
     [\<lparr>req_url = ''https://logs.example/v1/ingest'',
         req_headers =
           [(''Authorization'', ''Bearer secret''), (''Content-Type'', ''application/json'')],
         req_json = [''boot'', ''ready'']\<rparr>] \<and>
   posted (snd (do_request (answering (\<lambda>n. RequestError ''refused'')) [''boot'', ''ready'']
       (run (answering (\<lambda>n. RequestError ''refused'')) [Send [''early''], Close] (init sample_config)))) =
     posted (run (answering (\<lambda>n. RequestError ''refused'')) [Send [''early''], Close] (init sample_config)) @
       [\<lparr>req_url = ''https://logs.example/v1/ingest'',
         req_headers =
           [(''Authorization'', ''Bearer secret''), (''Content-Type'', ''application/json'')],
         req_json = [''boot'', ''ready'']\<rparr>] \<and>
   (\<exists>k\<le>4. 1 \<le> k \<and>
      posted (snd (send (answering (\<lambda>n. RequestError ''refused'')) [''boot'', ''ready'']
          (run (answering (\<lambda>n. RequestError ''refused'')) [Send [''early''], Close] (init sample_config)))) =
        posted (run (answering (\<lambda>n. RequestError ''refused'')) [Send [''early''], Close] (init sample_config)) @
        replicate k
        \<lparr>req_url = ''https://logs.example/v1/ingest'',
         req_headers =
           [(''Authorization'', ''Bearer secret''), (''Content-Type'', ''application/json'')],
         req_json = [''boot'', ''ready'']\<rparr>)"
proof -
  have a: "posted (snd (do_request (answering (\<lambda>n. RequestError ''refused'')) [''boot'', ''ready''] (init sample_config))) =
     [\<lparr>req_url = ''https://logs.example/v1/ingest'',
         req_headers =
           [(''Authorization'', ''Bearer secret''), (''Content-Type'', ''application/json'')],
         req_json = [''boot'', ''ready'']\<rparr>]"
    using every_attempt_posts_the_batch
      [of "(answering (\<lambda>n. RequestError ''refused''))" "[''boot'', ''ready'']" "[]" sample_config, THEN conjunct1]
    by (simp add: sample_config_def init_def)
  have b: "posted (snd (do_request (answering (\<lambda>n. RequestError ''refused'')) [''boot'', ''ready'']
       (run (answering (\<lambda>n. RequestError ''refused'')) [Send [''early''], Close] (init sample_config)))) =
     posted (run (answering (\<lambda>n. RequestError ''refused'')) [Send [''early''], Close] (init sample_config)) @
       [\<lparr>req_url = ''https://logs.example/v1/ingest'',
         req_headers =
           [(''Authorization'', ''Bearer secret''), (''Content-Type'', ''application/json'')],
         req_json = [''boot'', ''ready'']\<rparr>] \<and>
   (\<exists>k\<le>4. 1 \<le> k \<and>
      posted (snd (send (answering (\<lambda>n. RequestError ''refused'')) [''boot'', ''ready'']
          (run (answering (\<lambda>n. RequestError ''refused'')) [Send [''early''], Close] (init sample_config)))) =
        posted (run (answering (\<lambda>n. RequestError ''refused'')) [Send [''early''], Close] (init sample_config)) @
        replicate k
        \<lparr>req_url = ''https://logs.example/v1/ingest'',
         req_headers =
           [(''Authorization'', ''Bearer secret''), (''Content-Type'', ''application/json'')],
         req_json = [''boot'', ''ready'']\<rparr>)"
    using every_attempt_posts_the_batch
      [of "(answering (\<lambda>n. RequestError ''refused''))" "[''boot'', ''ready'']" "[Send [''early''], Close]" sample_config]
    by (simp add: sample_config_def)
  from a b show ?thesis by (rule conjI)
qed

end
